theory Spec2Isabelle
  imports Main "HOL-Library.Sublist"
begin

section \<open>Data model of \<open>apis/mattermost/v1beta1/mattermost_utils.go\<close>\<close>

text \<open>
  Go strings are byte sequences; they are modelled as \<^typ>\<open>string\<close> (lists of 8-bit
  characters). A Go \<open>map[string]string\<close> that is only read or built by indexed
  assignment is a partial function; the nil map and the empty map read alike and are
  both \<^term>\<open>Map.empty\<close>.
\<close>

type_synonym labels = "string \<rightharpoonup> string"

text \<open>
  The structured ingress object (\<open>mm.Spec.Ingress\<close>, a pointer that may be nil).
\<close>

record Ingress =
  Enabled :: bool
  Host :: string
  Annotations :: labels
  TLSSecret :: string

text \<open>
  The fields of \<open>MattermostSpec\<close> that the functions of this file read or write.
  \<open>ImagePullPolicy\<close> is the string type \<open>corev1.PullPolicy\<close>. \<open>ResourceLabels\<close> is
  iterated with \<open>range\<close>, so it is kept as the list of its entries in the order the
  iteration visits them; a Go map holds every key once, which is the side condition
  \<open>distinct (map fst (ResourceLabels s))\<close> where it matters. The types of the two
  embedded sub-specs are declared outside this file and are type parameters here.
\<close>

record ('fs, 'db) MattermostSpec =
  Image :: string
  Version :: string
  ImagePullPolicy :: string
  Ingress :: "Ingress option"
  IngressName :: string
  IngressAnnotations :: labels
  UseIngressTLS :: bool
  ResourceLabels :: "(string \<times> string) list"
  FileStore :: 'fs
  Database :: 'db

record ('fs, 'db) Mattermost =
  Spec :: "('fs, 'db) MattermostSpec"

text \<open>
  \<open>corev1.Container\<close>: its name, and everything else it carries. A deployment is
  reduced to the one path the code follows through it,
  \<open>deployment.Spec.Template.Spec.Containers\<close>.
\<close>

record 'r Container =
  Name :: string
  Rest :: 'r

record 'r Deployment =
  Spec_Template_Spec_Containers :: "'r Container list"

datatype error = Error string

datatype panic = NilPointerDereference

text \<open>The two delegated calls of \<open>SetDefaults\<close>, recorded in the order they are made.\<close>

datatype delegate = FileStore_SetDefaults | Database_SetDefaults

section \<open>Constants\<close>

definition OperatorName :: string where
  "OperatorName = ''mattermost-operator''"

definition DefaultMattermostImage :: string where
  "DefaultMattermostImage = ''mattermost/mattermost-enterprise-edition''"

definition DefaultMattermostVersion :: string where
  "DefaultMattermostVersion = ''5.37.1''"

text \<open>\<open>corev1.PullIfNotPresent\<close> is the string constant \<open>"IfNotPresent"\<close>.\<close>

definition DefaultPullPolicy :: string where
  "DefaultPullPolicy = ''IfNotPresent''"

definition ClusterLabel :: string where
  "ClusterLabel = ''installation.mattermost.com/installation''"

definition ClusterResourceLabel :: string where
  "ClusterResourceLabel = ''installation.mattermost.com/resource''"

definition MattermostAppContainerName :: string where
  "MattermostAppContainerName = ''mattermost''"

section \<open>Library functions the code calls\<close>

text \<open>
  \<open>strings.ReplaceAll(s, old, new)\<close> for a non-empty \<open>old\<close>: the non-overlapping
  occurrences of \<open>old\<close> are replaced from left to right. (For an empty \<open>old\<close> Go
  inserts \<open>new\<close> at every rune boundary; no equation is given for that case, which
  the code never takes: its \<open>old\<close> is the literal \<open>"."\<close>.)
\<close>

fun ReplaceAll :: "string \<Rightarrow> string \<Rightarrow> string \<Rightarrow> string" where
  "ReplaceAll [] (c # cs) new = []"
| "ReplaceAll (x # xs) (c # cs) new =
     (if prefix (c # cs) (x # xs)
      then new @ ReplaceAll (drop (length (c # cs)) (x # xs)) (c # cs) new
      else x # ReplaceAll xs (c # cs) new)"

text \<open>
  \<open>strings.Contains(s, substr)\<close>: a scan for the first position of \<open>s\<close> at which
  \<open>substr\<close> starts.
\<close>

fun Contains :: "string \<Rightarrow> string \<Rightarrow> bool" where
  "Contains [] substr = (substr = [])"
| "Contains (x # xs) substr = (prefix substr (x # xs) \<or> Contains xs substr)"

section \<open>Ingress resolution\<close>

definition IngressEnabled :: "('fs, 'db) Mattermost \<Rightarrow> bool" where
  "IngressEnabled mm =
     (case Ingress (Spec mm) of
        Some i \<Rightarrow> Enabled i
      | None \<Rightarrow> True)"

definition GetIngressHost :: "('fs, 'db) Mattermost \<Rightarrow> string" where
  "GetIngressHost mm =
     (case Ingress (Spec mm) of
        None \<Rightarrow> IngressName (Spec mm)
      | Some i \<Rightarrow> Host i)"

definition GetIngresAnnotations :: "('fs, 'db) Mattermost \<Rightarrow> labels" where
  "GetIngresAnnotations mm =
     (case Ingress (Spec mm) of
        None \<Rightarrow> IngressAnnotations (Spec mm)
      | Some i \<Rightarrow> Annotations i)"

definition defaultTLSSecret :: "('fs, 'db) Mattermost \<Rightarrow> string" where
  "defaultTLSSecret mm = ReplaceAll (GetIngressHost mm) ''.'' ''-'' @ ''-tls-cert''"

definition GetIngressTLSSecret :: "('fs, 'db) Mattermost \<Rightarrow> string" where
  "GetIngressTLSSecret mm =
     (case Ingress (Spec mm) of
        Some i \<Rightarrow> TLSSecret i
      | None \<Rightarrow> if UseIngressTLS (Spec mm) then defaultTLSSecret mm else [])"

section \<open>Defaulting\<close>

text \<open>
  \<open>SetDefaults\<close> mutates \<open>mm\<close> in place and returns an error or nil. The model returns
  the error (or \<open>None\<close>), the spec as the call leaves it, and the delegated calls it
  made. \<open>FileStore.SetDefaults\<close> and \<open>Database.SetDefaults\<close> are defined outside this
  file; each mutates only its own receiver and returns nothing, so they are the
  parameters \<open>fsd\<close> and \<open>dbd\<close>.
\<close>

definition SetDefaults ::
    "('fs \<Rightarrow> 'fs) \<Rightarrow> ('db \<Rightarrow> 'db) \<Rightarrow> ('fs, 'db) Mattermost
      \<Rightarrow> error option \<times> ('fs, 'db) Mattermost \<times> delegate list" where
  "SetDefaults fsd dbd mm =
     (if IngressEnabled mm \<and> GetIngressHost mm = []
      then (Some (Error ''ingress.host required, but not set''), mm, [])
      else
        let mm1 = (if Image (Spec mm) = []
                   then mm\<lparr>Spec := (Spec mm)\<lparr>Image := DefaultMattermostImage\<rparr>\<rparr>
                   else mm);
            mm2 = (if Version (Spec mm1) = []
                   then mm1\<lparr>Spec := (Spec mm1)\<lparr>Version := DefaultMattermostVersion\<rparr>\<rparr>
                   else mm1);
            mm3 = (if ImagePullPolicy (Spec mm2) = []
                   then mm2\<lparr>Spec := (Spec mm2)\<lparr>ImagePullPolicy := DefaultPullPolicy\<rparr>\<rparr>
                   else mm2);
            mm4 = mm3\<lparr>Spec := (Spec mm3)\<lparr>FileStore := fsd (FileStore (Spec mm3))\<rparr>\<rparr>;
            mm5 = mm4\<lparr>Spec := (Spec mm4)\<lparr>Database := dbd (Database (Spec mm4))\<rparr>\<rparr>
        in (None, mm5, [FileStore_SetDefaults, Database_SetDefaults]))"

section \<open>Container lookup\<close>

text \<open>
  The loop returns the address of its loop variable, a copy of the matching element;
  the model returns that value, and \<open>None\<close> for the nil pointer.
\<close>

fun getContainerByName :: "'r Container list \<Rightarrow> string \<Rightarrow> 'r Container option" where
  "getContainerByName [] containerName = None"
| "getContainerByName (container # containers) containerName =
     (if Name container = containerName then Some container
      else getContainerByName containers containerName)"

text \<open>The deployment is a pointer; following it when it is nil panics.\<close>

fun getDeploymentContainerByName ::
    "'r Deployment option \<Rightarrow> string \<Rightarrow> panic + 'r Container option" where
  "getDeploymentContainerByName None containerName = Inl NilPointerDereference"
| "getDeploymentContainerByName (Some deployment) containerName =
     Inr (getContainerByName (Spec_Template_Spec_Containers deployment) containerName)"

definition GetMattermostAppContainerFromDeployment ::
    "'r Deployment option \<Rightarrow> panic + 'r Container option" where
  "GetMattermostAppContainerFromDeployment deployment =
     getDeploymentContainerByName deployment MattermostAppContainerName"

definition GetMattermostAppContainer :: "'r Container list \<Rightarrow> 'r Container option" where
  "GetMattermostAppContainer containers =
     getContainerByName containers MattermostAppContainerName"

section \<open>Image reference\<close>

text \<open>\<open>fmt.Sprintf\<close> with two \<open>%s\<close> verbs concatenates around the separator.\<close>

definition GetImageName :: "('fs, 'db) Mattermost \<Rightarrow> string" where
  "GetImageName mm =
     (if Contains (Version (Spec mm)) ''sha256:''
      then Image (Spec mm) @ ''@'' @ Version (Spec mm)
      else Image (Spec mm) @ '':'' @ Version (Spec mm))"

section \<open>Labels\<close>

definition MattermostResourceLabels :: "string \<Rightarrow> labels" where
  "MattermostResourceLabels name = [ClusterResourceLabel \<mapsto> name]"

definition MattermostSelectorLabels :: "string \<Rightarrow> labels" where
  "MattermostSelectorLabels name =
     (let l = MattermostResourceLabels name;
          l = l(ClusterLabel \<mapsto> name);
          l = l(''app'' \<mapsto> MattermostAppContainerName)
      in l)"

text \<open>The \<open>range\<close> loop of \<open>MattermostLabels\<close>: one assignment per entry visited.\<close>

fun assignAll :: "(string \<times> string) list \<Rightarrow> labels \<Rightarrow> labels" where
  "assignAll [] l = l"
| "assignAll ((k, v) # kvs) l = assignAll kvs (l(k \<mapsto> v))"

definition MattermostLabels :: "('fs, 'db) Mattermost \<Rightarrow> string \<Rightarrow> labels" where
  "MattermostLabels mm name =
     (let l = MattermostResourceLabels name;
          l = l(ClusterLabel \<mapsto> name);
          l = l(''app'' \<mapsto> MattermostAppContainerName)
      in assignAll (ResourceLabels (Spec mm)) l)"

section \<open>Example inputs\<close>

text \<open>
  Concrete installations on which the theorems below are exercised. The sub-specs are
  stood in for by a storage size, and their defaulter by one that fills an empty size.
\<close>

definition example_ingress :: Ingress where
  "example_ingress =
     \<lparr>Enabled = True, Host = ''chat.example.com'',
      Annotations = [''kubernetes.io/ingress.class'' \<mapsto> ''nginx''],
      TLSSecret = ''chat-tls''\<rparr>"

definition example_legacy :: "(string, string) Mattermost" where
  "example_legacy =
     \<lparr>Spec = \<lparr>Image = [], Version = [], ImagePullPolicy = [], Ingress = None,
        IngressName = ''chat.example.com'',
        IngressAnnotations = [''kubernetes.io/tls-acme'' \<mapsto> ''true''],
        UseIngressTLS = True, ResourceLabels = [(''app'', ''custom'')],
        FileStore = [], Database = []\<rparr>\<rparr>"

definition example_structured :: "(string, string) Mattermost" where
  "example_structured =
     \<lparr>Spec = \<lparr>Image = ''mattermost/mattermost-team-edition'',
        Version = ''sha256:dd15a51a'', ImagePullPolicy = ''Always'',
        Ingress = Some example_ingress,
        IngressName = ''legacy.example.com'', IngressAnnotations = Map.empty,
        UseIngressTLS = True, ResourceLabels = [],
        FileStore = ''10Gi'', Database = []\<rparr>\<rparr>"

definition example_size_default :: "string \<Rightarrow> string" where
  "example_size_default s = (if s = [] then ''50Gi'' else s)"


definition example_containers :: "nat Container list" where
  "example_containers =
     [\<lparr>Name = ''sidecar'', Rest = 0\<rparr>, \<lparr>Name = ''mattermost'', Rest = 1\<rparr>,
      \<lparr>Name = ''mattermost'', Rest = 2\<rparr>]"

section \<open>Facts about the library functions and the loop\<close>

text \<open>Replacing a one-byte string by a one-byte string substitutes byte by byte.\<close>

lemma ReplaceAll_char:
  "ReplaceAll s [a] [b] = map (\<lambda>c. if c = a then b else c) s"
  by (induction s) auto

text \<open>The scan finds exactly the contiguous occurrences.\<close>

lemma Contains_iff: "Contains s sub \<longleftrightarrow> (\<exists>ps ss. s = ps @ sub @ ss)"
proof (induction s)
  case Nil
  then show ?case by auto
next
  case (Cons x xs)
  have "(\<exists>ps ss. x # xs = ps @ sub @ ss) \<longleftrightarrow> sublist sub (x # xs)"
    by (simp add: sublist_def)
  also have "\<dots> \<longleftrightarrow> prefix sub (x # xs) \<or> sublist sub xs"
    by (rule sublist_Cons_right)
  also have "\<dots> \<longleftrightarrow> prefix sub (x # xs) \<or> Contains xs sub"
    using Cons.IH by (simp add: sublist_def)
  finally show ?case by simp
qed

text \<open>
  The loop overlays the entries on the starting map; a later entry for a key hides an
  earlier one, and with every key held once the order of the visit is immaterial.
\<close>

lemma assignAll_overlay: "assignAll kvs l = l ++ map_of (rev kvs)"
proof (induction kvs arbitrary: l)
  case Nil
  show ?case by simp
next
  case (Cons kv kvs)
  obtain k v where kv: "kv = (k, v)" by (cases kv)
  have "assignAll (kv # kvs) l = assignAll kvs (l(k \<mapsto> v))"
    unfolding kv by (rule assignAll.simps(2))
  also have "\<dots> = l(k \<mapsto> v) ++ map_of (rev kvs)"
    by (rule Cons.IH)
  also have "l(k \<mapsto> v) = l ++ [k \<mapsto> v]"
    by simp
  also have "(l ++ [k \<mapsto> v]) ++ map_of (rev kvs) = l ++ ([k \<mapsto> v] ++ map_of (rev kvs))"
    by (rule map_add_assoc [symmetric])
  also have "[k \<mapsto> v] ++ map_of (rev kvs) = map_of (rev (kv # kvs))"
    unfolding kv by simp
  finally show ?case .
qed

lemma map_of_rev_distinct: "distinct (map fst kvs) \<Longrightarrow> map_of (rev kvs) = map_of kvs"
proof (rule ext)
  fix k
  assume d: "distinct (map fst kvs)"
  show "map_of (rev kvs) k = map_of kvs k"
  proof (cases "map_of kvs k")
    case None
    then have "k \<notin> fst ` set (rev kvs)" by (simp add: map_of_eq_None_iff)
    then have "map_of (rev kvs) k = None" by (simp add: map_of_eq_None_iff)
    with None show ?thesis by simp
  next
    case (Some v)
    then have "(k, v) \<in> set (rev kvs)" by (auto dest: map_of_SomeD)
    moreover have "distinct (map fst (rev kvs))" using d by (simp add: rev_map [symmetric])
    ultimately have "map_of (rev kvs) k = Some v" by (rule map_of_is_SomeI [rotated])
    with Some show ?thesis by simp
  qed
qed

section \<open>Facts about \<open>SetDefaults\<close> and the container scan\<close>

text \<open>The two paths of \<open>SetDefaults\<close>, each in closed form.\<close>

lemma SetDefaults_failure:
  "IngressEnabled mm \<and> GetIngressHost mm = [] \<Longrightarrow>
   SetDefaults fsd dbd mm = (Some (Error ''ingress.host required, but not set''), mm, [])"
  by (simp add: SetDefaults_def)

lemma SetDefaults_success:
  assumes "\<not> (IngressEnabled mm \<and> GetIngressHost mm = [])"
  shows "SetDefaults fsd dbd mm =
    (None,
     mm\<lparr>Spec := (Spec mm)
       \<lparr>Image := (if Image (Spec mm) = [] then DefaultMattermostImage else Image (Spec mm)),
        Version := (if Version (Spec mm) = [] then DefaultMattermostVersion else Version (Spec mm)),
        ImagePullPolicy := (if ImagePullPolicy (Spec mm) = [] then DefaultPullPolicy
                            else ImagePullPolicy (Spec mm)),
        FileStore := fsd (FileStore (Spec mm)),
        Database := dbd (Database (Spec mm))\<rparr>\<rparr>,
     [FileStore_SetDefaults, Database_SetDefaults])"
proof (cases "Image (Spec mm) = []"; cases "Version (Spec mm) = []";
    cases "ImagePullPolicy (Spec mm) = []")
qed (use assms in \<open>simp_all add: SetDefaults_def Let_def\<close>)



lemma getContainerByName_None_iff:
  "getContainerByName cs n = None \<longleftrightarrow> (\<forall>c \<in> set cs. Name c \<noteq> n)"
  by (induction cs) auto

lemma getContainerByName_Some_index:
  "\<exists>c \<in> set cs. Name c = n \<Longrightarrow>
   \<exists>i < length cs. getContainerByName cs n = Some (cs ! i) \<and> Name (cs ! i) = n \<and>
      (\<forall>j < i. Name (cs ! j) \<noteq> n)"
proof (induction cs)
  case Nil
  then show ?case by simp
next
  case (Cons c cs)
  show ?case
  proof (cases "Name c = n")
    case True
    then have "getContainerByName (c # cs) n = Some ((c # cs) ! 0) \<and> Name ((c # cs) ! 0) = n \<and>
      (\<forall>j < 0. Name ((c # cs) ! j) \<noteq> n)" by simp
    then show ?thesis by blast
  next
    case False
    with Cons.prems have "\<exists>c \<in> set cs. Name c = n" by auto
    from Cons.IH [OF this] obtain i where i: "i < length cs"
      "getContainerByName cs n = Some (cs ! i)" "Name (cs ! i) = n" "\<forall>j < i. Name (cs ! j) \<noteq> n"
      by blast
    have "\<forall>j < Suc i. Name ((c # cs) ! j) \<noteq> n"
      using False i(4) by (auto simp: less_Suc_eq_0_disj)
    with i False have "Suc i < length (c # cs) \<and>
      getContainerByName (c # cs) n = Some ((c # cs) ! Suc i) \<and> Name ((c # cs) ! Suc i) = n \<and>
      (\<forall>j < Suc i. Name ((c # cs) ! j) \<noteq> n)" by simp
    then show ?thesis by blast
  qed
qed

section \<open>The claims\<close>

text \<open>
  Claim C1. \<open>SetDefaults\<close> returns an error exactly when ingress is enabled and the
  host it resolves is empty: with the \<open>Ingress\<close> object present, when \<open>Enabled\<close> is
  true and \<open>Host\<close> is empty; with the object absent (ingress then counts as
  enabled), when the legacy \<open>IngressName\<close> is empty. In every other case, so also for
  every spec whose \<open>Ingress\<close> object has \<open>Enabled = false\<close> whatever its host, it
  returns nil. The error is always the same one, so this is the only failure path.
\<close>

theorem SetDefaults_fails_iff_ingress_host_missing:
  "fst (SetDefaults fsd dbd mm) =
     (if (case Ingress (Spec mm) of
            Some i \<Rightarrow> Enabled i \<and> Host i = []
          | None \<Rightarrow> IngressName (Spec mm) = [])
      then Some (Error ''ingress.host required, but not set'')
      else None)"
proof (cases "IngressEnabled mm \<and> GetIngressHost mm = []")
  case True
  then show ?thesis
    by (simp add: SetDefaults_failure IngressEnabled_def GetIngressHost_def split: option.splits)
next
  case False
  then show ?thesis
    by (simp add: SetDefaults_success IngressEnabled_def GetIngressHost_def split: option.splits)
qed

theorem SetDefaults_fails_iff_ingress_host_missing_witness:
  "fst (SetDefaults example_size_default example_size_default
          (example_structured\<lparr>Spec := (Spec example_structured)
             \<lparr>Ingress := Some (example_ingress\<lparr>Host := []\<rparr>)\<rparr>\<rparr>))
     = Some (Error ''ingress.host required, but not set'') \<and>
   fst (SetDefaults example_size_default example_size_default
          (example_structured\<lparr>Spec := (Spec example_structured)
             \<lparr>Ingress := Some (example_ingress\<lparr>Enabled := False, Host := []\<rparr>)\<rparr>\<rparr>))
     = None \<and>
   fst (SetDefaults example_size_default example_size_default
          (example_legacy\<lparr>Spec := (Spec example_legacy)\<lparr>IngressName := []\<rparr>\<rparr>))
     = Some (Error ''ingress.host required, but not set'') \<and>
   fst (SetDefaults example_size_default example_size_default example_legacy) = None"
  using SetDefaults_fails_iff_ingress_host_missing [of example_size_default example_size_default
      "example_structured\<lparr>Spec := (Spec example_structured)
             \<lparr>Ingress := Some (example_ingress\<lparr>Host := []\<rparr>)\<rparr>\<rparr>"]
    SetDefaults_fails_iff_ingress_host_missing [of example_size_default example_size_default
      "example_structured\<lparr>Spec := (Spec example_structured)
             \<lparr>Ingress := Some (example_ingress\<lparr>Enabled := False, Host := []\<rparr>)\<rparr>\<rparr>"]
    SetDefaults_fails_iff_ingress_host_missing [of example_size_default example_size_default
      "example_legacy\<lparr>Spec := (Spec example_legacy)\<lparr>IngressName := []\<rparr>\<rparr>"]
    SetDefaults_fails_iff_ingress_host_missing [of example_size_default example_size_default example_legacy]
  by (simp add: example_ingress_def example_legacy_def example_structured_def)

text \<open>
  Claim C2. With the \<open>Ingress\<close> object present, the four resolved values
  (enabled, host, annotations, TLS secret) are the four fields of that object, and
  overwriting the legacy fields \<open>IngressName\<close>, \<open>IngressAnnotations\<close> and
  \<open>UseIngressTLS\<close> with any values changes none of them. With the object absent,
  ingress is enabled, and host and annotations are the legacy \<open>IngressName\<close> and
  \<open>IngressAnnotations\<close>.
\<close>

theorem ingress_view_precedence:
  "(Ingress (Spec mm) = Some i \<longrightarrow>
      IngressEnabled mm = Enabled i \<and>
      GetIngressHost mm = Host i \<and>
      GetIngresAnnotations mm = Annotations i \<and>
      GetIngressTLSSecret mm = TLSSecret i \<and>
      (\<forall>n a t.
         IngressEnabled (mm\<lparr>Spec := (Spec mm)\<lparr>IngressName := n, IngressAnnotations := a,
             UseIngressTLS := t\<rparr>\<rparr>) = IngressEnabled mm \<and>
         GetIngressHost (mm\<lparr>Spec := (Spec mm)\<lparr>IngressName := n, IngressAnnotations := a,
             UseIngressTLS := t\<rparr>\<rparr>) = GetIngressHost mm \<and>
         GetIngresAnnotations (mm\<lparr>Spec := (Spec mm)\<lparr>IngressName := n, IngressAnnotations := a,
             UseIngressTLS := t\<rparr>\<rparr>) = GetIngresAnnotations mm \<and>
         GetIngressTLSSecret (mm\<lparr>Spec := (Spec mm)\<lparr>IngressName := n, IngressAnnotations := a,
             UseIngressTLS := t\<rparr>\<rparr>) = GetIngressTLSSecret mm)) \<and>
   (Ingress (Spec mm) = None \<longrightarrow>
      IngressEnabled mm \<and>
      GetIngressHost mm = IngressName (Spec mm) \<and>
      GetIngresAnnotations mm = IngressAnnotations (Spec mm))"
  by (simp add: IngressEnabled_def GetIngressHost_def GetIngresAnnotations_def
      GetIngressTLSSecret_def)

theorem ingress_view_precedence_witness:
  "Ingress (Spec example_structured) = Some example_ingress \<and>
   IngressEnabled example_structured \<and>
   GetIngressHost example_structured = ''chat.example.com'' \<and>
   GetIngresAnnotations example_structured = [''kubernetes.io/ingress.class'' \<mapsto> ''nginx''] \<and>
   GetIngressTLSSecret example_structured = ''chat-tls'' \<and>
   Ingress (Spec example_legacy) = None \<and>
   IngressEnabled example_legacy \<and>
   GetIngressHost example_legacy = ''chat.example.com'' \<and>
   GetIngresAnnotations example_legacy = [''kubernetes.io/tls-acme'' \<mapsto> ''true'']"
  using ingress_view_precedence [of example_structured example_ingress]
    ingress_view_precedence [of example_legacy example_ingress]
  by (simp add: example_ingress_def example_legacy_def example_structured_def)




text \<open>
  Claim C4. After a successful \<open>SetDefaults\<close>, \<open>Image\<close> is the default image
  \<open>"mattermost/mattermost-enterprise-edition"\<close> if it was empty and unchanged
  otherwise; likewise \<open>Version\<close> with \<open>"5.37.1"\<close> and \<open>ImagePullPolicy\<close> with
  \<open>"IfNotPresent"\<close>.
\<close>

theorem SetDefaults_fills_empty_fields:
  assumes ok: "SetDefaults fsd dbd mm = (None, mm', cs)"
  shows "Image (Spec mm') =
           (if Image (Spec mm) = [] then ''mattermost/mattermost-enterprise-edition''
            else Image (Spec mm)) \<and>
         Version (Spec mm') =
           (if Version (Spec mm) = [] then ''5.37.1'' else Version (Spec mm)) \<and>
         ImagePullPolicy (Spec mm') =
           (if ImagePullPolicy (Spec mm) = [] then ''IfNotPresent''
            else ImagePullPolicy (Spec mm))"
proof -
  have chk: "\<not> (IngressEnabled mm \<and> GetIngressHost mm = [])"
    using ok SetDefaults_failure [of mm fsd dbd] by auto
  from ok SetDefaults_success [OF chk, of fsd dbd] have mm': "mm' = mm\<lparr>Spec := (Spec mm)
       \<lparr>Image := (if Image (Spec mm) = [] then DefaultMattermostImage else Image (Spec mm)),
        Version := (if Version (Spec mm) = [] then DefaultMattermostVersion else Version (Spec mm)),
        ImagePullPolicy := (if ImagePullPolicy (Spec mm) = [] then DefaultPullPolicy
                            else ImagePullPolicy (Spec mm)),
        FileStore := fsd (FileStore (Spec mm)),
        Database := dbd (Database (Spec mm))\<rparr>\<rparr>"
    by simp
  show ?thesis
    unfolding mm'
    by (simp add: DefaultMattermostImage_def DefaultMattermostVersion_def DefaultPullPolicy_def)
qed

theorem SetDefaults_fills_empty_fields_witness:
  "fst (SetDefaults example_size_default example_size_default example_legacy) = None \<and>
   Image (Spec (fst (snd (SetDefaults example_size_default example_size_default example_legacy))))
     = ''mattermost/mattermost-enterprise-edition'' \<and>
   Version (Spec (fst (snd (SetDefaults example_size_default example_size_default example_legacy))))
     = ''5.37.1'' \<and>
   ImagePullPolicy (Spec (fst (snd (SetDefaults example_size_default example_size_default example_legacy))))
     = ''IfNotPresent'' \<and>
   fst (SetDefaults example_size_default example_size_default example_structured) = None \<and>
   Image (Spec (fst (snd (SetDefaults example_size_default example_size_default example_structured))))
     = ''mattermost/mattermost-team-edition'' \<and>
   Version (Spec (fst (snd (SetDefaults example_size_default example_size_default example_structured))))
     = ''sha256:dd15a51a'' \<and>
   ImagePullPolicy (Spec (fst (snd (SetDefaults example_size_default example_size_default example_structured))))
     = ''Always''"
proof -
  let ?l = "SetDefaults example_size_default example_size_default example_legacy"
  let ?s = "SetDefaults example_size_default example_size_default example_structured"
  have okl: "fst ?l = None"
    by (simp add: SetDefaults_def IngressEnabled_def GetIngressHost_def example_legacy_def)
  then have runl: "?l = (None, fst (snd ?l), snd (snd ?l))"
    by (metis prod.collapse)
  have oks: "fst ?s = None"
    by (simp add: SetDefaults_def IngressEnabled_def GetIngressHost_def example_structured_def
        example_ingress_def)
  then have runs: "?s = (None, fst (snd ?s), snd (snd ?s))"
    by (metis prod.collapse)
  have il: "Image (Spec example_legacy) = []" "Version (Spec example_legacy) = []"
    "ImagePullPolicy (Spec example_legacy) = []"
    by (simp_all add: example_legacy_def)
  have st: "Image (Spec example_structured) = ''mattermost/mattermost-team-edition''"
    "Version (Spec example_structured) = ''sha256:dd15a51a''"
    "ImagePullPolicy (Spec example_structured) = ''Always''"
    by (simp_all add: example_structured_def)
  from SetDefaults_fills_empty_fields [OF runl] SetDefaults_fills_empty_fields [OF runs] okl oks show ?thesis
    unfolding il st by simp
qed

text \<open>
  Claim C5. With the \<open>Ingress\<close> object absent, the resolved TLS secret name is empty
  when \<open>UseIngressTLS\<close> is false, and when it is true it is the legacy host with every
  \<open>.\<close> replaced by \<open>-\<close>, followed by \<open>-tls-cert\<close>.
\<close>

theorem GetIngressTLSSecret_legacy:
  assumes "Ingress (Spec mm) = None"
  shows "GetIngressTLSSecret mm =
           (if UseIngressTLS (Spec mm)
            then map (\<lambda>c. if c = CHR ''.'' then CHR ''-'' else c) (IngressName (Spec mm))
                 @ ''-tls-cert''
            else [])"
  using assms
  by (simp add: GetIngressTLSSecret_def defaultTLSSecret_def GetIngressHost_def ReplaceAll_char)

theorem GetIngressTLSSecret_legacy_witness:
  "Ingress (Spec example_legacy) = None \<and>
   GetIngressTLSSecret example_legacy = ''chat-example-com-tls-cert'' \<and>
   GetIngressTLSSecret (example_legacy\<lparr>Spec := (Spec example_legacy)\<lparr>UseIngressTLS := False\<rparr>\<rparr>)
     = []"
  using GetIngressTLSSecret_legacy [of example_legacy]
    GetIngressTLSSecret_legacy [of "example_legacy\<lparr>Spec := (Spec example_legacy)\<lparr>UseIngressTLS := False\<rparr>\<rparr>"]
  by (simp add: example_legacy_def)

text \<open>
  Claim C6. \<open>MattermostLabels\<close> is the selector label map with the entries of
  \<open>ResourceLabels\<close> laid over it: every user entry is in the result with the user's
  value, also under a reserved key, and every other key keeps what the selector map
  has. With \<open>ResourceLabels = {"app": "custom"}\<close> the key \<open>"app"\<close> maps to
  \<open>"custom"\<close>, not to the app container name. (The hypothesis is what a Go map
  guarantees: each key once.)
\<close>

theorem MattermostLabels_user_labels_win:
  assumes "distinct (map fst (ResourceLabels (Spec mm)))"
  shows "MattermostLabels mm name =
           MattermostSelectorLabels name ++ map_of (ResourceLabels (Spec mm)) \<and>
         (\<forall>(k, v) \<in> set (ResourceLabels (Spec mm)). MattermostLabels mm name k = Some v) \<and>
         (\<forall>k. k \<notin> fst ` set (ResourceLabels (Spec mm)) \<longrightarrow>
            MattermostLabels mm name k = MattermostSelectorLabels name k) \<and>
         (ResourceLabels (Spec mm) = [(''app'', ''custom'')] \<longrightarrow>
            MattermostLabels mm name ''app'' = Some ''custom'' \<and>
            MattermostLabels mm name ''app'' \<noteq> Some MattermostAppContainerName)"
proof -
  have eq: "MattermostLabels mm name =
      MattermostSelectorLabels name ++ map_of (ResourceLabels (Spec mm))"
    unfolding MattermostLabels_def MattermostSelectorLabels_def Let_def assignAll_overlay
    by (simp only: map_of_rev_distinct [OF assms])
  have wins: "MattermostLabels mm name k = Some v"
    if "(k, v) \<in> set (ResourceLabels (Spec mm))" for k v
    using that assms by (simp add: eq map_add_Some_iff)
  have keeps: "MattermostLabels mm name k = MattermostSelectorLabels name k"
    if "k \<notin> fst ` set (ResourceLabels (Spec mm))" for k
  proof -
    from that have "map_of (ResourceLabels (Spec mm)) k = None"
      by (simp add: map_of_eq_None_iff)
    then show ?thesis by (simp add: eq map_add_def)
  qed
  have app: "MattermostLabels mm name ''app'' = Some ''custom'' \<and>
      MattermostLabels mm name ''app'' \<noteq> Some MattermostAppContainerName"
    if "ResourceLabels (Spec mm) = [(''app'', ''custom'')]"
    using that by (simp add: eq MattermostAppContainerName_def)
  from eq wins keeps app show ?thesis by blast
qed

theorem MattermostLabels_user_labels_win_witness:
  "distinct (map fst (ResourceLabels (Spec example_legacy))) \<and>
   ResourceLabels (Spec example_legacy) = [(''app'', ''custom'')] \<and>
   MattermostSelectorLabels ''team-a'' ''app'' = Some ''mattermost'' \<and>
   MattermostLabels example_legacy ''team-a'' ''app'' = Some ''custom'' \<and>
   MattermostLabels example_legacy ''team-a'' ''installation.mattermost.com/installation''
     = Some ''team-a''"
proof -
  have d: "distinct (map fst (ResourceLabels (Spec example_legacy)))"
    and r: "ResourceLabels (Spec example_legacy) = [(''app'', ''custom'')]"
    by (simp_all add: example_legacy_def)
  have s: "MattermostSelectorLabels ''team-a'' ''app'' = Some ''mattermost''"
    "MattermostSelectorLabels ''team-a'' ''installation.mattermost.com/installation''
      = Some ''team-a''"
    by (simp_all add: MattermostSelectorLabels_def MattermostResourceLabels_def Let_def
        ClusterLabel_def ClusterResourceLabel_def MattermostAppContainerName_def)
  from MattermostLabels_user_labels_win [OF d, of "''team-a''"] d r s show ?thesis by simp
qed

text \<open>
  Claim C7. For every name, \<open>MattermostSelectorLabels\<close> has exactly three entries: the
  resource label key and the cluster label key, both mapped to the name, and
  \<open>"app"\<close> mapped to \<open>"mattermost"\<close>; and \<open>MattermostResourceLabels\<close> is the map
  with the single entry resource label key to name.
\<close>

theorem MattermostSelectorLabels_exact:
  "MattermostSelectorLabels n =
     [''installation.mattermost.com/resource'' \<mapsto> n,
      ''installation.mattermost.com/installation'' \<mapsto> n,
      ''app'' \<mapsto> ''mattermost''] \<and>
   dom (MattermostSelectorLabels n) =
     {''installation.mattermost.com/resource'', ''installation.mattermost.com/installation'',
      ''app''} \<and>
   card (dom (MattermostSelectorLabels n)) = 3 \<and>
   MattermostSelectorLabels n ''installation.mattermost.com/resource'' = Some n \<and>
   MattermostSelectorLabels n ''installation.mattermost.com/installation'' = Some n \<and>
   MattermostSelectorLabels n ''app'' = Some ''mattermost'' \<and>
   MattermostResourceLabels n = [''installation.mattermost.com/resource'' \<mapsto> n] \<and>
   dom (MattermostResourceLabels n) = {''installation.mattermost.com/resource''}"
proof -
  have sel: "MattermostSelectorLabels n =
     [''installation.mattermost.com/resource'' \<mapsto> n,
      ''installation.mattermost.com/installation'' \<mapsto> n,
      ''app'' \<mapsto> ''mattermost'']"
    by (simp add: MattermostSelectorLabels_def MattermostResourceLabels_def Let_def
        ClusterLabel_def ClusterResourceLabel_def MattermostAppContainerName_def)
  have res: "MattermostResourceLabels n = [''installation.mattermost.com/resource'' \<mapsto> n]"
    by (simp add: MattermostResourceLabels_def ClusterResourceLabel_def)
  have d: "dom (MattermostSelectorLabels n) =
     {''installation.mattermost.com/resource'', ''installation.mattermost.com/installation'',
      ''app''}"
    unfolding sel by auto
  have c: "card (dom (MattermostSelectorLabels n)) = 3"
    unfolding d by simp
  have l: "MattermostSelectorLabels n ''installation.mattermost.com/resource'' = Some n"
    "MattermostSelectorLabels n ''installation.mattermost.com/installation'' = Some n"
    "MattermostSelectorLabels n ''app'' = Some ''mattermost''"
    unfolding sel by simp_all
  have dr: "dom (MattermostResourceLabels n) = {''installation.mattermost.com/resource''}"
    unfolding res by simp
  from sel d c l res dr show ?thesis by (intro conjI)
qed

theorem MattermostSelectorLabels_exact_witness:
  "MattermostSelectorLabels ''team-a'' =
     [''installation.mattermost.com/resource'' \<mapsto> ''team-a'',
      ''installation.mattermost.com/installation'' \<mapsto> ''team-a'',
      ''app'' \<mapsto> ''mattermost''] \<and>
   card (dom (MattermostSelectorLabels ''team-a'')) = 3 \<and>
   MattermostResourceLabels ''team-a'' = [''installation.mattermost.com/resource'' \<mapsto> ''team-a'']"
  using MattermostSelectorLabels_exact [of "''team-a''"] by simp

text \<open>
  Claim C8. \<open>GetImageName\<close> is image, \<open>@\<close>, version when \<open>sha256:\<close> occurs somewhere
  in the version, and image, \<open>:\<close>, version otherwise; the default image with
  version \<open>5.37.1\<close> gives \<open>mattermost/mattermost-enterprise-edition:5.37.1\<close>.
\<close>

theorem GetImageName_format:
  "GetImageName mm =
     (if \<exists>ps ss. Version (Spec mm) = ps @ ''sha256:'' @ ss
      then Image (Spec mm) @ ''@'' @ Version (Spec mm)
      else Image (Spec mm) @ '':'' @ Version (Spec mm)) \<and>
   (Image (Spec mm) = ''mattermost/mattermost-enterprise-edition'' \<and> Version (Spec mm) = ''5.37.1''
      \<longrightarrow> GetImageName mm = ''mattermost/mattermost-enterprise-edition:5.37.1'')"
proof -
  have gen: "GetImageName mm =
     (if \<exists>ps ss. Version (Spec mm) = ps @ ''sha256:'' @ ss
      then Image (Spec mm) @ ''@'' @ Version (Spec mm)
      else Image (Spec mm) @ '':'' @ Version (Spec mm))"
    unfolding GetImageName_def Contains_iff ..
  have ex: "GetImageName mm = ''mattermost/mattermost-enterprise-edition:5.37.1''"
    if "Image (Spec mm) = ''mattermost/mattermost-enterprise-edition''"
      and "Version (Spec mm) = ''5.37.1''"
    using that by (simp add: GetImageName_def)
  from gen ex show ?thesis by blast
qed

theorem GetImageName_format_witness:
  "GetImageName (example_legacy\<lparr>Spec := (Spec example_legacy)
       \<lparr>Image := ''mattermost/mattermost-enterprise-edition'', Version := ''5.37.1''\<rparr>\<rparr>)
     = ''mattermost/mattermost-enterprise-edition:5.37.1'' \<and>
   GetImageName example_structured = ''mattermost/mattermost-team-edition@sha256:dd15a51a''"
proof -
  let ?l = "example_legacy\<lparr>Spec := (Spec example_legacy)
       \<lparr>Image := ''mattermost/mattermost-enterprise-edition'', Version := ''5.37.1''\<rparr>\<rparr>"
  have l: "Image (Spec ?l) = ''mattermost/mattermost-enterprise-edition''"
    "Version (Spec ?l) = ''5.37.1''"
    by simp_all
  have s: "Image (Spec example_structured) = ''mattermost/mattermost-team-edition''"
    "Version (Spec example_structured) = [] @ ''sha256:'' @ ''dd15a51a''"
    by (simp_all add: example_structured_def)
  from s(2) have e: "\<exists>ps ss. Version (Spec example_structured) = ps @ ''sha256:'' @ ss"
    by blast
  from GetImageName_format [of ?l] l
  have "GetImageName ?l = ''mattermost/mattermost-enterprise-edition:5.37.1''"
    by blast
  moreover from GetImageName_format [of example_structured] e
  have "GetImageName example_structured
      = Image (Spec example_structured) @ ''@'' @ Version (Spec example_structured)"
    by simp
  ultimately show ?thesis by (simp add: s)
qed

text \<open>
  Claim C9. \<open>getContainerByName\<close> returns nothing for the empty list and for a list
  with no container of that name; otherwise it returns the container at the least
  index whose name is the one asked for. \<open>getDeploymentContainerByName\<close> on a
  deployment is that lookup on the container list of its pod template.
\<close>

theorem getContainerByName_first_match:
  "getContainerByName [] n = None \<and>
   ((\<forall>c \<in> set cs. Name c \<noteq> n) \<longrightarrow> getContainerByName cs n = None) \<and>
   ((\<exists>c \<in> set cs. Name c = n) \<longrightarrow>
      (\<exists>i < length cs. getContainerByName cs n = Some (cs ! i) \<and> Name (cs ! i) = n \<and>
         (\<forall>j < i. Name (cs ! j) \<noteq> n))) \<and>
   getDeploymentContainerByName (Some d) n =
     Inr (getContainerByName (Spec_Template_Spec_Containers d) n)"
  using getContainerByName_Some_index [of cs n] by (simp add: getContainerByName_None_iff)

theorem getContainerByName_first_match_witness:
  "getContainerByName example_containers ''mattermost'' = Some \<lparr>Name = ''mattermost'', Rest = 1\<rparr> \<and>
   getContainerByName example_containers ''postgres'' = None \<and>
   getContainerByName ([] :: nat Container list) ''mattermost'' = None \<and>
   getDeploymentContainerByName
       (Some \<lparr>Spec_Template_Spec_Containers = example_containers\<rparr>) ''mattermost''
     = Inr (Some \<lparr>Name = ''mattermost'', Rest = 1\<rparr>)"
  using getContainerByName_first_match [of "''mattermost''" example_containers
      "\<lparr>Spec_Template_Spec_Containers = example_containers\<rparr>"]
    getContainerByName_first_match [of "''postgres''" example_containers
      "\<lparr>Spec_Template_Spec_Containers = example_containers\<rparr>"]
  by (simp add: example_containers_def)

text \<open>
  Claim C10. When \<open>SetDefaults\<close> returns an error (ingress enabled, resolved host
  empty), it leaves the spec exactly as it was, so \<open>Image\<close>, \<open>Version\<close> and
  \<open>ImagePullPolicy\<close> are not defaulted, and it has made neither delegated call,
  whatever the two defaulters would have done.
\<close>

theorem SetDefaults_atomic_on_failure:
  assumes "fst (SetDefaults fsd dbd mm) \<noteq> None"
  shows "SetDefaults fsd dbd mm = (Some (Error ''ingress.host required, but not set''), mm, []) \<and>
         IngressEnabled mm \<and> GetIngressHost mm = []"
proof (cases "IngressEnabled mm \<and> GetIngressHost mm = []")
  case True
  then show ?thesis by (simp add: SetDefaults_failure)
next
  case False
  with assms show ?thesis by (simp add: SetDefaults_success)
qed

theorem SetDefaults_atomic_on_failure_witness:
  "fst (SetDefaults example_size_default example_size_default
          (example_legacy\<lparr>Spec := (Spec example_legacy)\<lparr>IngressName := []\<rparr>\<rparr>)) \<noteq> None \<and>
   SetDefaults example_size_default example_size_default
          (example_legacy\<lparr>Spec := (Spec example_legacy)\<lparr>IngressName := []\<rparr>\<rparr>)
     = (Some (Error ''ingress.host required, but not set''),
        example_legacy\<lparr>Spec := (Spec example_legacy)\<lparr>IngressName := []\<rparr>\<rparr>, []) \<and>
   Image (Spec (fst (snd (SetDefaults example_size_default example_size_default
          (example_legacy\<lparr>Spec := (Spec example_legacy)\<lparr>IngressName := []\<rparr>\<rparr>))))) = []"
proof -
  let ?mm = "example_legacy\<lparr>Spec := (Spec example_legacy)\<lparr>IngressName := []\<rparr>\<rparr>"
  have fails: "fst (SetDefaults example_size_default example_size_default ?mm) \<noteq> None"
    by (simp add: SetDefaults_def IngressEnabled_def GetIngressHost_def example_legacy_def)
  have "Image (Spec ?mm) = []" by (simp add: example_legacy_def)
  with SetDefaults_atomic_on_failure [OF fails] fails show ?thesis by simp
qed

end
